theory Spec2Isabelle
  imports Complex_Main
begin

section \<open>Data model\<close>

text \<open>
  The program (\<^verbatim>\<open>main.cpp\<close>) draws a quadratic and a cubic Bezier curve as a chain of
  straight line segments. Its arithmetic is on C++ \<^verbatim>\<open>float\<close>. The embedding leaves the
  number type open: a coordinate is a value of a type \<open>'a\<close> that only has to offer the
  operations the source uses (\<open>1\<close>, \<open>+\<close>, \<open>-\<close>, \<open>*\<close>, \<open>/\<close>), with no law assumed of them, and
  the conversion \<^verbatim>\<open>(float) i\<close> of an \<^verbatim>\<open>int\<close> is a parameter \<open>to_float\<close>. Whatever is proved
  at this generality holds for any arithmetic, rounding included. Two arithmetics are
  then put in: the type \<open>real\<close> with \<open>to_float = real_of_int\<close>, which is exact arithmetic,
  and the type \<open>binary32\<close> below with \<open>to_float = int_to_binary32\<close>, which rounds every
  operation to single precision.

  The loop counter and the step count are C++ \<^verbatim>\<open>int\<close>. The source's step count is the
  constant \<^verbatim>\<open>STEPS = 20\<close>; the routines below take it as the argument \<open>steps\<close>, and counter
  and step count are mathematical integers, which is what the \<^verbatim>\<open>int\<close> loop computes for
  every step count below the largest \<^verbatim>\<open>int\<close>.
\<close>

record 'a Point =
  x :: 'a
  y :: 'a


section \<open>The renderer\<close>

text \<open>
  The renderer is the external collaborator; the curve routines reach it through
  \<^verbatim>\<open>SDL_SetRenderDrawColor\<close> and \<^verbatim>\<open>SDL_RenderDrawLine\<close>. Its state is the draw colour in force
  and the lines drawn so far, each with the colour it was drawn in. A line is recorded by
  the two Points whose coordinates the call passes (start, end), before the scaling to the
  window size that the call's arguments apply.
\<close>

type_synonym Color = "nat \<times> nat \<times> nat \<times> nat"

type_synonym 'a Segment = "'a Point \<times> 'a Point"

record 'a Renderer =
  draw_color :: Color
  lines :: "(Color \<times> 'a Segment) list"

definition SDL_ALPHA_OPAQUE :: nat where
  "SDL_ALPHA_OPAQUE = 255"

definition SDL_SetRenderDrawColor ::
  "'a Renderer \<Rightarrow> nat \<Rightarrow> nat \<Rightarrow> nat \<Rightarrow> nat \<Rightarrow> 'a Renderer" where
  "SDL_SetRenderDrawColor renderer r g b a = renderer\<lparr>draw_color := (r, g, b, a)\<rparr>"

definition SDL_RenderDrawLine :: "'a Renderer \<Rightarrow> 'a Point \<Rightarrow> 'a Point \<Rightarrow> 'a Renderer" where
  "SDL_RenderDrawLine renderer p q =
     renderer\<lparr>lines := lines renderer @ [(draw_color renderer, (p, q))]\<rparr>"

text \<open>A renderer on which nothing is drawn, as \<^verbatim>\<open>clear\<close> leaves it.\<close>

definition cleared :: "'a Renderer" where
  "cleared = \<lparr>draw_color = (0, 0, 0, SDL_ALPHA_OPAQUE), lines = []\<rparr>"

section \<open>Linear interpolation\<close>

definition lerp :: "'a::{one,plus,minus,times} \<Rightarrow> 'a Point \<Rightarrow> 'a Point \<Rightarrow> 'a Point" where
  "lerp interp p0 p1 =
     \<lparr>x = (1 - interp) * x p0 + interp * x p1,
      y = (1 - interp) * y p0 + interp * y p1\<rparr>"

section \<open>The quadratic curve\<close>

text \<open>
  The \<^verbatim>\<open>for\<close> loop of \<^verbatim>\<open>draw_bezier_quadratic\<close>, entered with counter \<open>i\<close>, the end of the
  last segment \<open>curve_prev\<close> and the renderer; \<open>steps\<close> stands for \<^verbatim>\<open>STEPS\<close>.
\<close>

function quadratic_loop ::
  "(int \<Rightarrow> 'a::{one,plus,minus,times,inverse}) \<Rightarrow> int \<Rightarrow> 'a Point \<Rightarrow> 'a Point \<Rightarrow> 'a Point \<Rightarrow>
   int \<Rightarrow> 'a Point \<Rightarrow> 'a Renderer \<Rightarrow> 'a Renderer" where
  "quadratic_loop to_float steps p0 p1 p2 i curve_prev renderer =
     (if i \<le> steps then
        let interp = to_float i / to_float steps;
            p0_p1_interp = lerp interp p0 p1;
            p1_p2_interp = lerp interp p1 p2;
            curve_current = lerp interp p0_p1_interp p1_p2_interp
        in quadratic_loop to_float steps p0 p1 p2 (i + 1) curve_current
             (SDL_RenderDrawLine renderer curve_prev curve_current)
      else renderer)"
  by pat_completeness auto
termination
  by (relation "measure (\<lambda>(to_float, steps, p0, p1, p2, i, curve_prev, renderer).
                   nat (steps + 1 - i))") auto

declare quadratic_loop.simps [simp del]

definition draw_bezier_quadratic ::
  "(int \<Rightarrow> 'a::{one,plus,minus,times,inverse}) \<Rightarrow> int \<Rightarrow> 'a Renderer \<Rightarrow>
   'a Point \<Rightarrow> 'a Point \<Rightarrow> 'a Point \<Rightarrow> 'a Renderer" where
  "draw_bezier_quadratic to_float steps renderer p0 p1 p2 =
     quadratic_loop to_float steps p0 p1 p2 1 p0
       (SDL_SetRenderDrawColor renderer 0 255 0 SDL_ALPHA_OPAQUE)"

section \<open>The cubic curve\<close>

function cubic_loop ::
  "(int \<Rightarrow> 'a::{one,plus,minus,times,inverse}) \<Rightarrow> int \<Rightarrow>
   'a Point \<Rightarrow> 'a Point \<Rightarrow> 'a Point \<Rightarrow> 'a Point \<Rightarrow>
   int \<Rightarrow> 'a Point \<Rightarrow> 'a Renderer \<Rightarrow> 'a Renderer" where
  "cubic_loop to_float steps p0 p1 p2 p3 i curve_prev renderer =
     (if i \<le> steps then
        let interp = to_float i / to_float steps;
            p0_p1_interp = lerp interp p0 p1;
            p1_p2_interp = lerp interp p1 p2;
            p2_p3_interp = lerp interp p2 p3;
            p0p1_p1p2_interp = lerp interp p0_p1_interp p1_p2_interp;
            p1p2_p2p3_interp = lerp interp p1_p2_interp p2_p3_interp;
            curve_current = lerp interp p0p1_p1p2_interp p1p2_p2p3_interp
        in cubic_loop to_float steps p0 p1 p2 p3 (i + 1) curve_current
             (SDL_RenderDrawLine renderer curve_prev curve_current)
      else renderer)"
  by pat_completeness auto
termination
  by (relation "measure (\<lambda>(to_float, steps, p0, p1, p2, p3, i, curve_prev, renderer).
                   nat (steps + 1 - i))") auto

declare cubic_loop.simps [simp del]

definition draw_bezier_cubic ::
  "(int \<Rightarrow> 'a::{one,plus,minus,times,inverse}) \<Rightarrow> int \<Rightarrow> 'a Renderer \<Rightarrow>
   'a Point \<Rightarrow> 'a Point \<Rightarrow> 'a Point \<Rightarrow> 'a Point \<Rightarrow> 'a Renderer" where
  "draw_bezier_cubic to_float steps renderer p0 p1 p2 p3 =
     cubic_loop to_float steps p0 p1 p2 p3 1 p0
       (SDL_SetRenderDrawColor renderer 255 0 0 SDL_ALPHA_OPAQUE)"

section \<open>The polyline a curve routine draws\<close>

text \<open>
  The routines return nothing; the chain of points is read off the draw calls made on a
  cleared renderer: the start point, then the end of every line drawn.
\<close>

definition polyline :: "'a Point \<Rightarrow> 'a Renderer \<Rightarrow> 'a Point list" where
  "polyline p0 renderer = p0 # map (\<lambda>(c, s, e). e) (lines renderer)"

definition evaluate_quadratic ::
  "(int \<Rightarrow> 'a::{one,plus,minus,times,inverse}) \<Rightarrow>
   'a Point \<Rightarrow> 'a Point \<Rightarrow> 'a Point \<Rightarrow> int \<Rightarrow> 'a Point list" where
  "evaluate_quadratic to_float p0 p1 p2 step_count =
     polyline p0 (draw_bezier_quadratic to_float step_count cleared p0 p1 p2)"

definition evaluate_cubic ::
  "(int \<Rightarrow> 'a::{one,plus,minus,times,inverse}) \<Rightarrow>
   'a Point \<Rightarrow> 'a Point \<Rightarrow> 'a Point \<Rightarrow> 'a Point \<Rightarrow> int \<Rightarrow> 'a Point list" where
  "evaluate_cubic to_float p0 p1 p2 p3 step_count =
     polyline p0 (draw_bezier_cubic to_float step_count cleared p0 p1 p2 p3)"

text \<open>
  The draw calls of a chain through the points \<open>pts\<close> that starts at \<open>start\<close>: every
  segment begins where the one before it ended.
\<close>

definition segments_of :: "'a Point \<Rightarrow> 'a Point list \<Rightarrow> 'a Segment list" where
  "segments_of start pts = zip (butlast (start # pts)) pts"

section \<open>The specification's side\<close>

text \<open>
  The point of index \<open>i\<close> as the specification words it: \<open>t = i / step_count\<close>, one layer
  of interpolation between neighbouring control points, then one more layer on the
  results (quadratic); three layers for the cubic.
\<close>

definition spec_quadratic_point ::
  "(int \<Rightarrow> 'a::{one,plus,minus,times,inverse}) \<Rightarrow> int \<Rightarrow>
   'a Point \<Rightarrow> 'a Point \<Rightarrow> 'a Point \<Rightarrow> int \<Rightarrow> 'a Point" where
  "spec_quadratic_point to_float step_count p0 p1 p2 i =
     (let t = to_float i / to_float step_count;
          a = lerp t p0 p1;
          b = lerp t p1 p2
      in lerp t a b)"

definition spec_cubic_point ::
  "(int \<Rightarrow> 'a::{one,plus,minus,times,inverse}) \<Rightarrow> int \<Rightarrow>
   'a Point \<Rightarrow> 'a Point \<Rightarrow> 'a Point \<Rightarrow> 'a Point \<Rightarrow> int \<Rightarrow> 'a Point" where
  "spec_cubic_point to_float step_count p0 p1 p2 p3 i =
     (let t = to_float i / to_float step_count;
          a = lerp t p0 p1;
          b = lerp t p1 p2;
          c = lerp t p2 p3;
          ab = lerp t a b;
          bc = lerp t b c
      in lerp t ab bc)"

definition midpoint_of :: "real Point \<Rightarrow> real Point \<Rightarrow> real Point" where
  "midpoint_of a b = \<lparr>x = (x a + x b) / 2, y = (y a + y b) / 2\<rparr>"

text \<open>The Bernstein polynomial forms of degree 2 and 3.\<close>

definition bernstein_quadratic ::
  "real \<Rightarrow> real Point \<Rightarrow> real Point \<Rightarrow> real Point \<Rightarrow> real Point" where
  "bernstein_quadratic t p0 p1 p2 =
     \<lparr>x = (1 - t)\<^sup>2 * x p0 + 2 * t * (1 - t) * x p1 + t\<^sup>2 * x p2,
      y = (1 - t)\<^sup>2 * y p0 + 2 * t * (1 - t) * y p1 + t\<^sup>2 * y p2\<rparr>"

definition bernstein_cubic ::
  "real \<Rightarrow> real Point \<Rightarrow> real Point \<Rightarrow> real Point \<Rightarrow> real Point \<Rightarrow> real Point" where
  "bernstein_cubic t p0 p1 p2 p3 =
     \<lparr>x = (1 - t) ^ 3 * x p0 + 3 * t * (1 - t)\<^sup>2 * x p1
            + 3 * t\<^sup>2 * (1 - t) * x p2 + t ^ 3 * x p3,
      y = (1 - t) ^ 3 * y p0 + 3 * t * (1 - t)\<^sup>2 * y p1
            + 3 * t\<^sup>2 * (1 - t) * y p2 + t ^ 3 * y p3\<rparr>"

section \<open>Single-precision arithmetic\<close>

text \<open>
  The finite values of IEEE 754 binary32 (the \<^verbatim>\<open>float\<close> of the usual C++ platforms) are the
  numbers \<open>m * 2^e\<close> with \<open>|m| < 2^24\<close> and \<open>-149 \<le> e \<le> 104\<close>. A value of the model is
  such a number, given as a real, or \<open>NotFinite\<close>, which stands for the infinities and NaN
  together. Every operation computes the exact result and rounds it to the nearest
  value, ties to the even significand; a result that rounds to \<open>2^128\<close> or beyond is not
  finite. Each operation is rounded on its own, which is how a compiler evaluates
  \<^verbatim>\<open>float\<close> expressions when it keeps them in single precision and does not fuse a
  multiplication with an addition. The two zeros are one value, as they are for \<^verbatim>\<open>==\<close>.

  An operation with an operand that is not finite, and a division by zero, give
  \<open>NotFinite\<close>. (IEEE gives 0 for a finite number divided by an infinity; the program's
  only division is counter by step count, both converted from \<^verbatim>\<open>int\<close>.)
\<close>

datatype binary32 = Finite real | NotFinite

definition round_half_even :: "real \<Rightarrow> int" where
  "round_half_even q =
     (let f = \<lfloor>q\<rfloor>; d = q - of_int f
      in if d < 1 / 2 then f else if 1 / 2 < d then f + 1 else if even f then f else f + 1)"

text \<open>
  \<open>binade q\<close> is the power of two \<open>2^e\<close> with \<open>2^e \<le> |q| < 2^(e+1)\<close>, kept inside
  \<open>-126 \<le> e \<le> 127\<close>: it is \<open>2^-126\<close> on the subnormal range. The spacing of the binary32
  values around \<open>q\<close> is \<open>binade q / 2^23\<close>.
\<close>

fun binade_up :: "nat \<Rightarrow> real \<Rightarrow> real \<Rightarrow> real" where
  "binade_up 0 pw q = pw"
| "binade_up (Suc k) pw q = (if q < 2 * pw then pw else binade_up k (2 * pw) q)"

fun binade_down :: "nat \<Rightarrow> real \<Rightarrow> real \<Rightarrow> real" where
  "binade_down 0 pw q = pw"
| "binade_down (Suc k) pw q = (if pw \<le> q then pw else binade_down k (pw / 2) q)"

definition binade :: "real \<Rightarrow> real" where
  "binade q = (if 1 \<le> \<bar>q\<bar> then binade_up 127 1 \<bar>q\<bar> else binade_down 126 1 \<bar>q\<bar>)"

definition round_binary32 :: "real \<Rightarrow> binary32" where
  "round_binary32 q =
     (let ulp = binade q / 2 ^ 23;
          r = of_int (round_half_even (q / ulp)) * ulp
      in if 2 ^ 128 \<le> \<bar>r\<bar> then NotFinite else Finite r)"

text \<open>A real number is a binary32 value when rounding leaves it as it is.\<close>

definition is_binary32 :: "real \<Rightarrow> bool" where
  "is_binary32 r = (round_binary32 r = Finite r)"

fun binary32_op :: "(real \<Rightarrow> real \<Rightarrow> real) \<Rightarrow> binary32 \<Rightarrow> binary32 \<Rightarrow> binary32" where
  "binary32_op f (Finite p) (Finite q) = round_binary32 (f p q)"
| "binary32_op f _ _ = NotFinite"

instantiation binary32 :: "{zero,one,plus,minus,times,inverse}"
begin

definition zero_binary32 :: binary32 where
  "zero_binary32 = Finite 0"

definition one_binary32 :: binary32 where
  "one_binary32 = Finite 1"

definition plus_binary32 :: "binary32 \<Rightarrow> binary32 \<Rightarrow> binary32" where
  "plus_binary32 a b = binary32_op (+) a b"

definition minus_binary32 :: "binary32 \<Rightarrow> binary32 \<Rightarrow> binary32" where
  "minus_binary32 a b = binary32_op (-) a b"

definition times_binary32 :: "binary32 \<Rightarrow> binary32 \<Rightarrow> binary32" where
  "times_binary32 a b = binary32_op (*) a b"

definition divide_binary32 :: "binary32 \<Rightarrow> binary32 \<Rightarrow> binary32" where
  "divide_binary32 a b = (if b = Finite 0 then NotFinite else binary32_op (/) a b)"

definition inverse_binary32 :: "binary32 \<Rightarrow> binary32" where
  "inverse_binary32 a = (if a = Finite 0 then NotFinite else binary32_op (/) (Finite 1) a)"

instance ..

end

text \<open>The conversion \<^verbatim>\<open>(float) i\<close> of an \<^verbatim>\<open>int\<close>.\<close>

definition int_to_binary32 :: "int \<Rightarrow> binary32" where
  "int_to_binary32 i = round_binary32 (of_int i)"

text \<open>A Point whose two coordinates are finite binary32 values.\<close>

definition finite_point :: "binary32 Point \<Rightarrow> bool" where
  "finite_point p =
     (case (x p, y p) of
        (Finite a, Finite b) \<Rightarrow> is_binary32 a \<and> is_binary32 b
      | _ \<Rightarrow> False)"

section \<open>What the loops draw\<close>

lemma segments_of_Nil: "segments_of s [] = []"
  by (simp add: segments_of_def)

lemma segments_of_Cons: "segments_of s (p # ps) = (s, p) # segments_of p ps"
  by (simp add: segments_of_def)

lemma map_snd_segments_of: "map snd (segments_of s ps) = ps"
  by (induction ps arbitrary: s) (simp_all add: segments_of_Nil segments_of_Cons)


lemma ends_of_coloured_segments:
  "map ((\<lambda>(c, s, e). e) \<circ> Pair col) (segments_of s ps) = ps"
  by (induction ps arbitrary: s) (simp_all add: segments_of_Nil segments_of_Cons)

lemma quadratic_loop_draws:
  "quadratic_loop to_float steps p0 p1 p2 i curve_prev renderer =
     renderer\<lparr>lines := lines renderer @ map (Pair (draw_color renderer))
       (segments_of curve_prev (map (spec_quadratic_point to_float steps p0 p1 p2) [i..steps]))\<rparr>"
proof (induction to_float steps p0 p1 p2 i curve_prev renderer rule: quadratic_loop.induct)
  case (1 to_float steps p0 p1 p2 i curve_prev renderer)
  let ?pt = "spec_quadratic_point to_float steps p0 p1 p2"
  show ?case
  proof (cases "i \<le> steps")
    case True
    have u: "[i..steps] = i # [i + 1..steps]"
      using True by (simp add: upto_rec1)
    have pt: "lerp (to_float i / to_float steps) (lerp (to_float i / to_float steps) p0 p1)
                (lerp (to_float i / to_float steps) p1 p2) = ?pt i"
      by (simp add: spec_quadratic_point_def Let_def)
    let ?r = "SDL_RenderDrawLine renderer curve_prev (?pt i)"
    have "quadratic_loop to_float steps p0 p1 p2 i curve_prev renderer =
          quadratic_loop to_float steps p0 p1 p2 (i + 1) (?pt i) ?r"
      using True by (subst quadratic_loop.simps) (simp add: Let_def pt)
    also have "\<dots> = ?r\<lparr>lines := lines ?r @ map (Pair (draw_color ?r))
                      (segments_of (?pt i) (map ?pt [i + 1..steps]))\<rparr>"
      using 1 [OF True refl refl refl refl] by (simp only: pt)
    finally show ?thesis
      by (simp add: u segments_of_Cons SDL_RenderDrawLine_def)
  next
    case False
    then show ?thesis
      by (subst quadratic_loop.simps) (simp add: segments_of_Nil)
  qed
qed

lemma cubic_loop_draws:
  "cubic_loop to_float steps p0 p1 p2 p3 i curve_prev renderer =
     renderer\<lparr>lines := lines renderer @ map (Pair (draw_color renderer))
       (segments_of curve_prev (map (spec_cubic_point to_float steps p0 p1 p2 p3) [i..steps]))\<rparr>"
proof (induction to_float steps p0 p1 p2 p3 i curve_prev renderer rule: cubic_loop.induct)
  case (1 to_float steps p0 p1 p2 p3 i curve_prev renderer)
  let ?pt = "spec_cubic_point to_float steps p0 p1 p2 p3"
  let ?t = "to_float i / to_float steps"
  show ?case
  proof (cases "i \<le> steps")
    case True
    have u: "[i..steps] = i # [i + 1..steps]"
      using True by (simp add: upto_rec1)
    have pt: "lerp ?t (lerp ?t (lerp ?t p0 p1) (lerp ?t p1 p2))
                (lerp ?t (lerp ?t p1 p2) (lerp ?t p2 p3)) = ?pt i"
      by (simp add: spec_cubic_point_def Let_def)
    let ?r = "SDL_RenderDrawLine renderer curve_prev (?pt i)"
    have "cubic_loop to_float steps p0 p1 p2 p3 i curve_prev renderer =
          cubic_loop to_float steps p0 p1 p2 p3 (i + 1) (?pt i) ?r"
      using True by (subst cubic_loop.simps) (simp add: Let_def pt)
    also have "\<dots> = ?r\<lparr>lines := lines ?r @ map (Pair (draw_color ?r))
                      (segments_of (?pt i) (map ?pt [i + 1..steps]))\<rparr>"
      using 1 [OF True refl refl refl refl refl refl refl] by (simp only: pt)
    finally show ?thesis
      by (simp add: u segments_of_Cons SDL_RenderDrawLine_def)
  next
    case False
    then show ?thesis
      by (subst cubic_loop.simps) (simp add: segments_of_Nil)
  qed
qed

lemma draw_bezier_quadratic_draws:
  "draw_bezier_quadratic to_float steps renderer p0 p1 p2 =
     renderer\<lparr>draw_color := (0, 255, 0, SDL_ALPHA_OPAQUE),
       lines := lines renderer @ map (Pair (0, 255, 0, SDL_ALPHA_OPAQUE))
         (segments_of p0 (map (spec_quadratic_point to_float steps p0 p1 p2) [1..steps]))\<rparr>"
  by (simp add: draw_bezier_quadratic_def quadratic_loop_draws SDL_SetRenderDrawColor_def)

lemma draw_bezier_cubic_draws:
  "draw_bezier_cubic to_float steps renderer p0 p1 p2 p3 =
     renderer\<lparr>draw_color := (255, 0, 0, SDL_ALPHA_OPAQUE),
       lines := lines renderer @ map (Pair (255, 0, 0, SDL_ALPHA_OPAQUE))
         (segments_of p0 (map (spec_cubic_point to_float steps p0 p1 p2 p3) [1..steps]))\<rparr>"
  by (simp add: draw_bezier_cubic_def cubic_loop_draws SDL_SetRenderDrawColor_def)

lemma evaluate_quadratic_points:
  "evaluate_quadratic to_float p0 p1 p2 n =
     p0 # map (spec_quadratic_point to_float n p0 p1 p2) [1..n]"
  by (simp add: evaluate_quadratic_def polyline_def draw_bezier_quadratic_draws
        cleared_def ends_of_coloured_segments)

lemma evaluate_cubic_points:
  "evaluate_cubic to_float p0 p1 p2 p3 n =
     p0 # map (spec_cubic_point to_float n p0 p1 p2 p3) [1..n]"
  by (simp add: evaluate_cubic_def polyline_def draw_bezier_cubic_draws
        cleared_def ends_of_coloured_segments)

section \<open>The curve routines\<close>

text \<open>
  C1. For all control points \<open>p0\<close>, \<open>p1\<close>, \<open>p2\<close> and every step count the quadratic routine
  computes, for \<open>i\<close> from 1 to the step count and \<open>t = i / step_count\<close>,
  \<open>a = lerp t p0 p1\<close>, \<open>b = lerp t p1 p2\<close> and \<open>point_i = lerp t a b\<close>, and the points come
  in the order \<open>p0, point_1, \<dots>, point_n\<close>: the polyline is that list, and the lines the
  routine adds to any renderer are its consecutive pairs, drawn in green. This holds for
  any arithmetic on the coordinates.
\<close>

theorem quadratic_evaluator_sequence:
  "evaluate_quadratic to_float p0 p1 p2 step_count =
     p0 # map (spec_quadratic_point to_float step_count p0 p1 p2) [1..step_count]
   \<and> lines (draw_bezier_quadratic to_float step_count renderer p0 p1 p2) =
     lines renderer @ map (Pair (0, 255, 0, SDL_ALPHA_OPAQUE))
       (segments_of p0 (map (spec_quadratic_point to_float step_count p0 p1 p2) [1..step_count]))"
  by (simp add: evaluate_quadratic_points draw_bezier_quadratic_draws)

text \<open>
  C2. For all control points \<open>p0\<close>, \<open>p1\<close>, \<open>p2\<close>, \<open>p3\<close> and every step count the cubic routine
  computes, for \<open>i\<close> from 1 to the step count and \<open>t = i / step_count\<close>, the first layer
  \<open>a\<close>, \<open>b\<close>, \<open>c\<close>, the second layer \<open>ab\<close>, \<open>bc\<close> and \<open>point_i = lerp t ab bc\<close>, and the
  points come in the order \<open>p0, point_1, \<dots>, point_n\<close>: the polyline is that list, and the
  lines the routine adds to any renderer are its consecutive pairs, drawn in red. This
  holds for any arithmetic on the coordinates.
\<close>

theorem cubic_evaluator_sequence:
  "evaluate_cubic to_float p0 p1 p2 p3 step_count =
     p0 # map (spec_cubic_point to_float step_count p0 p1 p2 p3) [1..step_count]
   \<and> lines (draw_bezier_cubic to_float step_count renderer p0 p1 p2 p3) =
     lines renderer @ map (Pair (255, 0, 0, SDL_ALPHA_OPAQUE))
       (segments_of p0 (map (spec_cubic_point to_float step_count p0 p1 p2 p3) [1..step_count]))"
  by (simp add: evaluate_cubic_points draw_bezier_cubic_draws)

section \<open>The interpolator\<close>

text \<open>
  C3. For every blend factor \<open>t\<close>, inside \<open>[0,1]\<close> or not, and all Points \<open>a\<close>, \<open>b\<close> the
  interpolator returns the Point whose coordinates are \<open>(1 - t) * a + t * b\<close> taken on \<open>x\<close>
  and on \<open>y\<close>. It is a total function of its three arguments with a Point as its only
  outcome. This holds for any arithmetic on the coordinates, the real numbers among them.
\<close>

theorem lerp_componentwise:
  "lerp t a b = \<lparr>x = (1 - t) * x a + t * x b, y = (1 - t) * y a + t * y b\<rparr>
   \<and> x (lerp t a b) = (1 - t) * x a + t * x b
   \<and> y (lerp t a b) = (1 - t) * y a + t * y b"
  by (simp add: lerp_def)

lemma lerp_one: "lerp (1::real) a b = b"
  by (simp add: lerp_def)

lemma lerp_same: "lerp (t::real) p p = p"
  by (simp add: lerp_def algebra_simps)

lemma lerp_lerp_bernstein:
  "lerp t (lerp t p0 p1) (lerp t p1 p2) = bernstein_quadratic t p0 p1 p2"
  by (simp add: lerp_def bernstein_quadratic_def power2_eq_square algebra_simps)

lemma lerp_lerp_lerp_bernstein:
  "lerp t (lerp t (lerp t p0 p1) (lerp t p1 p2)) (lerp t (lerp t p1 p2) (lerp t p2 p3)) =
     bernstein_cubic t p0 p1 p2 p3"
  by (simp add: lerp_def bernstein_cubic_def power2_eq_square power3_eq_cube algebra_simps)

section \<open>Shape of the polyline\<close>

text \<open>
  C4. For all control points and every positive step count, the polyline of the quadratic
  routine and that of the cubic routine have exactly \<open>step_count + 1\<close> points and begin
  with \<open>p0\<close> itself; with one step the polyline has two points. This holds for any
  arithmetic on the coordinates.
\<close>

theorem polyline_length_and_start:
  assumes "0 < step_count"
  shows "int (length (evaluate_quadratic to_float p0 p1 p2 step_count)) = step_count + 1
       \<and> hd (evaluate_quadratic to_float p0 p1 p2 step_count) = p0
       \<and> int (length (evaluate_cubic to_float q0 q1 q2 q3 step_count)) = step_count + 1
       \<and> hd (evaluate_cubic to_float q0 q1 q2 q3 step_count) = q0"
  using assms by (simp add: evaluate_quadratic_points evaluate_cubic_points)

theorem polyline_length_and_start_witness:
  "(0::int) < 1
   \<and> length (evaluate_quadratic real_of_int
        \<lparr>x = 0, y = 0\<rparr> \<lparr>x = 1, y = 0\<rparr> \<lparr>x = 1, y = 1\<rparr> 1) = 2
   \<and> hd (evaluate_quadratic real_of_int
        \<lparr>x = 0, y = 0\<rparr> \<lparr>x = 1, y = 0\<rparr> \<lparr>x = 1, y = 1\<rparr> 1) = \<lparr>x = 0, y = 0\<rparr>
   \<and> length (evaluate_cubic real_of_int
        \<lparr>x = 0, y = 0\<rparr> \<lparr>x = 0, y = 1\<rparr> \<lparr>x = 1, y = 1\<rparr> \<lparr>x = 1, y = 0\<rparr> 1) = 2
   \<and> hd (evaluate_cubic real_of_int
        \<lparr>x = 0, y = 0\<rparr> \<lparr>x = 0, y = 1\<rparr> \<lparr>x = 1, y = 1\<rparr> \<lparr>x = 1, y = 0\<rparr> 1) = \<lparr>x = 0, y = 0\<rparr>"
proof -
  have pos: "(0::int) < 1" by simp
  show ?thesis
    using polyline_length_and_start [OF pos, where to_float = real_of_int
        and ?p0.0 = "\<lparr>x = 0, y = 0\<rparr>" and ?p1.0 = "\<lparr>x = 1, y = 0\<rparr>" and ?p2.0 = "\<lparr>x = 1, y = 1\<rparr>"
        and ?q0.0 = "\<lparr>x = 0, y = 0\<rparr>" and ?q1.0 = "\<lparr>x = 0, y = 1\<rparr>" and ?q2.0 = "\<lparr>x = 1, y = 1\<rparr>"
        and ?q3.0 = "\<lparr>x = 1, y = 0\<rparr>"]
    by simp
qed

text \<open>
  C5. At \<open>t = 1\<close> the routines reproduce the last control point: for every positive step
  count the last point of the quadratic polyline is \<open>p2\<close> and the last point of the cubic
  polyline is \<open>p3\<close>; and for \<open>p0 = (0,0)\<close>, \<open>p1 = (0,1)\<close>, \<open>p2 = (1,1)\<close>, \<open>p3 = (1,0)\<close> with
  one step the cubic routine computes the single point \<open>p3\<close> (exact arithmetic).
\<close>

theorem last_point_is_last_control_point:
  "(0 < step_count \<longrightarrow>
      last (evaluate_quadratic real_of_int p0 p1 p2 step_count) = p2
    \<and> last (evaluate_cubic real_of_int q0 q1 q2 q3 step_count) = q3)
   \<and> evaluate_cubic real_of_int
        \<lparr>x = 0, y = 0\<rparr> \<lparr>x = 0, y = 1\<rparr> \<lparr>x = 1, y = 1\<rparr> \<lparr>x = 1, y = 0\<rparr> 1
      = [\<lparr>x = 0, y = 0\<rparr>, \<lparr>x = 1, y = 0\<rparr>]"
proof -
  have at_end: "real_of_int n / real_of_int n = 1" if "0 < n" for n :: int
    using that by simp
  have quad: "spec_quadratic_point real_of_int n p0 p1 p2 n = p2" if "0 < n" for n
    unfolding spec_quadratic_point_def Let_def by (simp only: at_end [OF that] lerp_one)
  have cub: "spec_cubic_point real_of_int n q0 q1 q2 q3 n = q3" if "0 < n" for n q0 q1 q2 q3
    unfolding spec_cubic_point_def Let_def by (simp only: at_end [OF that] lerp_one)
  have split: "[1..n] = [1..n - 1] @ [n]" if "0 < n" for n :: int
    using that by (simp add: upto_rec2)
  have general: "last (evaluate_quadratic real_of_int p0 p1 p2 step_count) = p2
      \<and> last (evaluate_cubic real_of_int q0 q1 q2 q3 step_count) = q3" if "0 < step_count"
    by (simp add: evaluate_quadratic_points evaluate_cubic_points split [OF that]
          quad [OF that] cub [OF that])
  have "[1..1::int] = [1]"
    by (simp add: upto_rec1)
  then have concrete: "evaluate_cubic real_of_int
        \<lparr>x = 0, y = 0\<rparr> \<lparr>x = 0, y = 1\<rparr> \<lparr>x = 1, y = 1\<rparr> \<lparr>x = 1, y = 0\<rparr> 1
      = [\<lparr>x = 0, y = 0\<rparr>, \<lparr>x = 1, y = 0\<rparr>]"
    using cub [of 1] by (simp add: evaluate_cubic_points)
  show ?thesis
    using general concrete by blast
qed

theorem last_point_is_last_control_point_witness:
  "(0::int) < 2
   \<and> last (evaluate_quadratic real_of_int
        \<lparr>x = 0, y = 0\<rparr> \<lparr>x = 1, y = 0\<rparr> \<lparr>x = 1, y = 1\<rparr> 2) = \<lparr>x = 1, y = 1\<rparr>
   \<and> last (evaluate_cubic real_of_int
        \<lparr>x = 0, y = 0\<rparr> \<lparr>x = 0, y = 1\<rparr> \<lparr>x = 1, y = 1\<rparr> \<lparr>x = 1, y = 0\<rparr> 2) = \<lparr>x = 1, y = 0\<rparr>"
  using last_point_is_last_control_point [where step_count = 2
      and ?p0.0 = "\<lparr>x = 0, y = 0\<rparr>" and ?p1.0 = "\<lparr>x = 1, y = 0\<rparr>" and ?p2.0 = "\<lparr>x = 1, y = 1\<rparr>"
      and ?q0.0 = "\<lparr>x = 0, y = 0\<rparr>" and ?q1.0 = "\<lparr>x = 0, y = 1\<rparr>" and ?q2.0 = "\<lparr>x = 1, y = 1\<rparr>"
      and ?q3.0 = "\<lparr>x = 1, y = 0\<rparr>"]
  by simp

text \<open>
  C8. For \<open>p0 = (0,0)\<close>, \<open>p1 = (1,0)\<close>, \<open>p2 = (1,1)\<close> and two steps, the point the
  quadratic routine computes at \<open>t = 1/2\<close>, the middle one of the three points of the
  polyline, is \<open>(3/4, 1/4)\<close> (exact arithmetic).
\<close>

theorem quadratic_midpoint_example:
  "evaluate_quadratic real_of_int \<lparr>x = 0, y = 0\<rparr> \<lparr>x = 1, y = 0\<rparr> \<lparr>x = 1, y = 1\<rparr> 2 ! 1
     = \<lparr>x = 3 / 4, y = 1 / 4\<rparr>
   \<and> length (evaluate_quadratic real_of_int
        \<lparr>x = 0, y = 0\<rparr> \<lparr>x = 1, y = 0\<rparr> \<lparr>x = 1, y = 1\<rparr> 2) = 3"
  by (simp add: evaluate_quadratic_points upto_rec1 spec_quadratic_point_def Let_def lerp_def)

section \<open>Facts about single-precision rounding\<close>

lemmas binary32_eval =
  round_binary32_def binade_def round_half_even_def Let_def eval_nat_numeral

lemma round_binary32_0: "round_binary32 0 = Finite 0"
  by (simp add: binary32_eval)

lemma round_binary32_1: "round_binary32 1 = Finite 1"
  by (simp add: binary32_eval)

lemma round_binary32_half: "round_binary32 (1 / 2) = Finite (1 / 2)"
  by (simp add: binary32_eval)

lemma binade_up_ge: "pw \<le> binade_up k pw q" if "0 < pw"
  using that
proof (induction k arbitrary: pw)
  case 0
  then show ?case by simp
next
  case (Suc k)
  have "pw \<le> 2 * pw"
    using Suc.prems by simp
  also have "\<dots> \<le> binade_up k (2 * pw) q"
    using Suc.IH [of "2 * pw"] Suc.prems by simp
  finally show ?case
    by simp
qed

lemma binade_up_le: "binade_up k pw q \<le> q" if "pw \<le> q"
  using that by (induction k arbitrary: pw) auto

lemma binade_up_bound: "binade_up k pw q \<le> pw * 2 ^ k" if "0 < pw"
  using that
proof (induction k arbitrary: pw)
  case 0
  then show ?case by simp
next
  case (Suc k)
  have "(1::real) \<le> 2 ^ Suc k"
    by (rule one_le_power) simp
  then have "pw \<le> pw * (2 * 2 ^ k)"
    using Suc.prems by (simp add: mult_le_cancel_left1)
  moreover have "binade_up k (2 * pw) q \<le> 2 * pw * 2 ^ k"
    using Suc.IH [of "2 * pw"] Suc.prems by simp
  ultimately show ?case
    by (simp add: mult.assoc mult.left_commute)
qed

lemma round_half_even_bounds: "\<lfloor>q\<rfloor> \<le> round_half_even q \<and> round_half_even q \<le> \<lfloor>q\<rfloor> + 1"
  by (simp add: round_half_even_def Let_def)

lemma int_to_binary32_finite:
  assumes "0 < n" and "n < 2 ^ 31"
  shows "\<exists>r. int_to_binary32 n = Finite r \<and> 0 < r"
proof -
  define q :: real where "q = of_int n"
  have q1: "1 \<le> q" and q31: "q < 2 ^ 31"
    using assms by (simp_all add: q_def) 
  define b where "b = binade q"
  have b_eq: "b = binade_up 127 1 q"
    using q1 by (simp add: b_def binade_def)
  have b_ge: "1 \<le> b"
    using binade_up_ge [of 1 127 q] by (simp add: b_eq)
  have b_le: "b \<le> q"
    using binade_up_le [of 1 q 127] q1 by (simp add: b_eq)
  have b_ub: "b \<le> 2 ^ 127"
    using binade_up_bound [of 1 127 q] by (simp add: b_eq)
  define ulp where "ulp = b / 2 ^ 23"
  have ulp_pos: "0 < ulp"
    using b_ge by (simp add: ulp_def)
  have ulp_le: "ulp \<le> q"
  proof -
    have "ulp \<le> b" using b_ge by (simp add: ulp_def field_simps)
    then show ?thesis using b_le by simp
  qed
  have ulp_ub: "ulp \<le> 2 ^ 104"
    using b_ub by (simp add: ulp_def field_simps)
  define m where "m = round_half_even (q / ulp)"
  have "1 \<le> q / ulp"
    using ulp_le ulp_pos by (simp add: field_simps)
  then have "1 \<le> \<lfloor>q / ulp\<rfloor>"
    by (simp add: le_floor_iff)
  then have m1: "1 \<le> m"
    using round_half_even_bounds [of "q / ulp"] unfolding m_def by linarith
  have "of_int m \<le> of_int \<lfloor>q / ulp\<rfloor> + (1::real)"
    using round_half_even_bounds [of "q / ulp"] unfolding m_def
    by (metis of_int_1 of_int_add of_int_le_iff)
  also have "\<dots> \<le> q / ulp + 1"
    by simp
  finally have m_ub: "of_int m \<le> q / ulp + 1" .
  define r where "r = of_int m * ulp"
  have r_pos: "0 < r"
    using m1 ulp_pos by (simp add: r_def)
  have "r \<le> (q / ulp + 1) * ulp"
    unfolding r_def using m_ub ulp_pos by (simp add: mult_right_mono)
  also have "\<dots> = q + ulp"
    using ulp_pos by (simp add: field_simps)
  also have "\<dots> < 2 ^ 31 + 2 ^ 104"
    using q31 ulp_ub by simp
  also have "\<dots> < (2 ^ 128 :: real)"
    by simp
  finally have r_ub: "r < 2 ^ 128" .
  have "round_binary32 q = Finite r"
    unfolding round_binary32_def Let_def using r_ub r_pos
    by (simp add: r_def m_def ulp_def b_def)
  then show ?thesis
    using r_pos by (auto simp add: int_to_binary32_def q_def)
qed

lemma binade_up_spec:
  assumes "0 < pw" and "pw \<le> q" and "q < pw * 2 ^ Suc k"
  shows "binade_up k pw q \<le> q \<and> q < 2 * binade_up k pw q"
  using assms
proof (induction k arbitrary: pw)
  case 0
  then show ?case by simp
next
  case (Suc k)
  show ?case
  proof (cases "q < 2 * pw")
    case True
    then show ?thesis using Suc.prems by simp
  next
    case False
    have "binade_up k (2 * pw) q \<le> q \<and> q < 2 * binade_up k (2 * pw) q"
      using Suc.prems False by (intro Suc.IH) (simp_all add: mult.assoc)
    then show ?thesis using False by simp
  qed
qed

lemma binade_down_spec:
  assumes "0 < pw" and "q < 2 * pw" and "pw / 2 ^ k \<le> q"
  shows "binade_down k pw q \<le> q \<and> q < 2 * binade_down k pw q"
  using assms
proof (induction k arbitrary: pw)
  case 0
  then show ?case by simp
next
  case (Suc k)
  show ?case
  proof (cases "pw \<le> q")
    case True
    then show ?thesis using Suc.prems by simp
  next
    case False
    have "binade_down k (pw / 2) q \<le> q \<and> q < 2 * binade_down k (pw / 2) q"
      using Suc.prems False by (intro Suc.IH) (simp_all add: field_simps)
    then show ?thesis using False by simp
  qed
qed

lemma binade_down_subnormal:
  assumes "0 < pw" and "q < pw / 2 ^ k"
  shows "binade_down k pw q = pw / 2 ^ k"
  using assms
proof (induction k arbitrary: pw)
  case 0
  then show ?case by simp
next
  case (Suc k)
  have "(1::real) \<le> 2 ^ Suc k"
    by (rule one_le_power) simp
  then have "pw / 2 ^ Suc k \<le> pw / 1"
    using Suc.prems(1) by (intro divide_left_mono) simp_all
  then have "\<not> pw \<le> q"
    using Suc.prems(2) by simp
  moreover have "binade_down k (pw / 2) q = pw / 2 / 2 ^ k"
    using Suc.prems by (intro Suc.IH) (simp_all add: field_simps)
  ultimately show ?case
    by (simp add: field_simps)
qed

lemma binade_normal:
  assumes "1 / 2 ^ 126 \<le> \<bar>q\<bar>" and "\<bar>q\<bar> < 2 ^ 128"
  shows "binade q \<le> \<bar>q\<bar> \<and> \<bar>q\<bar> < 2 * binade q"
proof (cases "1 \<le> \<bar>q\<bar>")
  case True
  then show ?thesis
    using binade_up_spec [of 1 "\<bar>q\<bar>" 127] assms(2) by (simp add: binade_def)
next
  case False
  then show ?thesis
    using binade_down_spec [of 1 "\<bar>q\<bar>" 126] assms(1) by (simp add: binade_def)
qed

lemma binade_subnormal:
  assumes "\<bar>q\<bar> < 1 / 2 ^ 126"
  shows "binade q = 1 / 2 ^ 126"
proof -
  have "(1::real) / 2 ^ 126 \<le> 1"
    by simp
  then have "\<not> 1 \<le> \<bar>q\<bar>"
    using assms by linarith
  then show ?thesis
    using binade_down_subnormal [of 1 "\<bar>q\<bar>" 126] assms by (simp add: binade_def)
qed

lemma round_binary32_examples:
  "round_binary32 (1 / 10) = Finite (13421773 / 134217728)"
  "round_binary32 (1 / 3) = Finite (11184811 / 33554432)"
  "round_binary32 (2 ^ 24 + 1) = Finite (2 ^ 24)"
  "round_binary32 (2 ^ 24 + 3) = Finite (2 ^ 24 + 4)"
  "round_binary32 (2 ^ 128 - 2 ^ 104) = Finite (2 ^ 128 - 2 ^ 104)"
  "round_binary32 (2 ^ 128 - 2 ^ 103) = NotFinite"
  "round_binary32 (1 / 2 ^ 149) = Finite (1 / 2 ^ 149)"
  "round_binary32 (1 / 2 ^ 150) = Finite 0"
  "round_binary32 (3 / 2 ^ 150) = Finite (1 / 2 ^ 148)"
  by (simp_all add: binary32_eval)

lemma finite_pointE:
  assumes "finite_point p"
  obtains a b where "p = \<lparr>x = Finite a, y = Finite b\<rparr>" "is_binary32 a" "is_binary32 b"
proof -
  obtain u v where p: "p = \<lparr>x = u, y = v\<rparr>"
    by (cases p) simp
  show ?thesis
    using assms that unfolding p finite_point_def
    by (cases u; cases v) simp_all
qed

lemma finite_pointI:
  "is_binary32 a \<Longrightarrow> is_binary32 b \<Longrightarrow> finite_point \<lparr>x = Finite a, y = Finite b\<rparr>"
  by (simp add: finite_point_def)

lemmas binary32_ops =
  zero_binary32_def one_binary32_def plus_binary32_def minus_binary32_def times_binary32_def
  divide_binary32_def

lemma lerp_zero_binary32:
  assumes "is_binary32 a1" and "is_binary32 a2"
  shows "lerp 0 \<lparr>x = Finite a1, y = Finite a2\<rparr> \<lparr>x = Finite b1, y = Finite b2\<rparr>
           = \<lparr>x = Finite a1, y = Finite a2\<rparr>"
  using assms
  by (simp add: lerp_def binary32_ops round_binary32_0 round_binary32_1 is_binary32_def)

lemma lerp_one_binary32:
  assumes "is_binary32 b1" and "is_binary32 b2"
  shows "lerp 1 \<lparr>x = Finite a1, y = Finite a2\<rparr> \<lparr>x = Finite b1, y = Finite b2\<rparr>
           = \<lparr>x = Finite b1, y = Finite b2\<rparr>"
  using assms
  by (simp add: lerp_def binary32_ops round_binary32_0 round_binary32_1 is_binary32_def)

lemma lerp_half_binary32:
  assumes "is_binary32 (a1 / 2)" and "is_binary32 (a2 / 2)"
    and "is_binary32 (b1 / 2)" and "is_binary32 (b2 / 2)"
  shows "lerp (Finite (1 / 2)) \<lparr>x = Finite a1, y = Finite a2\<rparr> \<lparr>x = Finite b1, y = Finite b2\<rparr>
           = \<lparr>x = round_binary32 ((a1 + b1) / 2), y = round_binary32 ((a2 + b2) / 2)\<rparr>"
proof -
  have h: "(1::binary32) - Finite (1 / 2) = Finite (1 / 2)"
    by (simp add: binary32_ops round_binary32_half)
  have m: "Finite (1 / 2) * Finite c = Finite (c / 2)" if "is_binary32 (c / 2)" for c
    using that by (simp add: binary32_ops is_binary32_def)
  have s: "Finite (c / 2) + Finite (d / 2) = round_binary32 ((c + d) / 2)" for c d
    by (simp add: binary32_ops add_divide_distrib)
  show ?thesis
    by (simp only: lerp_def h m [OF assms(1)] m [OF assms(2)] m [OF assms(3)] m [OF assms(4)] s
          Point.simps)
qed

lemma lerp_zero_finite:
  assumes "finite_point c" and "finite_point d"
  shows "lerp 0 c d = c"
proof -
  obtain a1 a2 where c: "c = \<lparr>x = Finite a1, y = Finite a2\<rparr>" "is_binary32 a1" "is_binary32 a2"
    using assms(1) by (rule finite_pointE)
  obtain b1 b2 where d: "d = \<lparr>x = Finite b1, y = Finite b2\<rparr>"
    using assms(2) by (rule finite_pointE)
  show ?thesis
    unfolding c(1) d by (rule lerp_zero_binary32 [OF c(2,3)])
qed

lemma lerp_one_finite:
  assumes "finite_point c" and "finite_point d"
  shows "lerp 1 c d = d"
proof -
  obtain a1 a2 where c: "c = \<lparr>x = Finite a1, y = Finite a2\<rparr>"
    using assms(1) by (rule finite_pointE)
  obtain b1 b2 where d: "d = \<lparr>x = Finite b1, y = Finite b2\<rparr>" "is_binary32 b1" "is_binary32 b2"
    using assms(2) by (rule finite_pointE)
  show ?thesis
    unfolding c d(1) by (rule lerp_one_binary32 [OF d(2,3)])
qed

lemma interp_at_end:
  assumes "0 < n" and "n < 2 ^ 31"
  shows "int_to_binary32 n / int_to_binary32 n = 1"
proof -
  obtain r where r: "int_to_binary32 n = Finite r" "0 < r"
    using int_to_binary32_finite [OF assms] by blast
  show ?thesis
    using r(2) by (simp add: r(1) binary32_ops round_binary32_1)
qed

lemma last_point_binary32:
  assumes "0 < n" and "n < 2 ^ 31"
    and "finite_point p0" and "finite_point p1" and "finite_point p2" and "finite_point p3"
  shows "last (evaluate_quadratic int_to_binary32 p0 p1 p2 n) = p2"
    and "last (evaluate_cubic int_to_binary32 p0 p1 p2 p3 n) = p3"
proof -
  have split: "[1..n] = [1..n - 1] @ [n]"
    using assms(1) by (simp add: upto_rec2)
  have quad: "spec_quadratic_point int_to_binary32 n p0 p1 p2 n = p2"
    unfolding spec_quadratic_point_def Let_def
    by (simp only: interp_at_end [OF assms(1,2)] lerp_one_finite assms)
  have cub: "spec_cubic_point int_to_binary32 n p0 p1 p2 p3 n = p3"
    unfolding spec_cubic_point_def Let_def
    by (simp only: interp_at_end [OF assms(1,2)] lerp_one_finite assms)
  show "last (evaluate_quadratic int_to_binary32 p0 p1 p2 n) = p2"
    by (simp add: evaluate_quadratic_points split quad)
  show "last (evaluate_cubic int_to_binary32 p0 p1 p2 p3 n) = p3"
    by (simp add: evaluate_cubic_points split cub)
qed

text \<open>The quadratic example with two steps comes out the same in single precision.\<close>

lemma quadratic_midpoint_example_binary32:
  "evaluate_quadratic int_to_binary32
     \<lparr>x = Finite 0, y = Finite 0\<rparr> \<lparr>x = Finite 1, y = Finite 0\<rparr> \<lparr>x = Finite 1, y = Finite 1\<rparr> 2 ! 1
     = \<lparr>x = Finite (3 / 4), y = Finite (1 / 4)\<rparr>"
proof -
  have t: "int_to_binary32 1 / int_to_binary32 2 = Finite (1 / 2)"
    by (simp add: int_to_binary32_def binary32_ops binary32_eval)
  have h: "(1::binary32) - Finite (1 / 2) = Finite (1 / 2)"
    by (simp add: binary32_ops round_binary32_half)
  have m: "Finite (1 / 2) * Finite 0 = Finite 0" "Finite (1 / 2) * Finite 1 = Finite (1 / 2)"
    "Finite (1 / 2) * Finite (1 / 2) = Finite (1 / 4)"
    by (simp_all add: binary32_ops binary32_eval)
  have s: "Finite 0 + Finite (1 / 2) = Finite (1 / 2)" "Finite (1 / 2) + Finite (1 / 2) = Finite 1"
    "Finite (1 / 4) + Finite (1 / 2) = Finite (3 / 4)" "Finite 0 + Finite 0 = Finite 0"
    "Finite 0 + Finite (1 / 4) = Finite (1 / 4)"
    by (simp_all add: binary32_ops binary32_eval)
  have pt: "spec_quadratic_point int_to_binary32 2
      \<lparr>x = Finite 0, y = Finite 0\<rparr> \<lparr>x = Finite 1, y = Finite 0\<rparr> \<lparr>x = Finite 1, y = Finite 1\<rparr> 1
      = \<lparr>x = Finite (3 / 4), y = Finite (1 / 4)\<rparr>"
    unfolding spec_quadratic_point_def Let_def
    by (simp only: t lerp_def h m s Point.simps)
  show ?thesis
    by (simp add: evaluate_quadratic_points upto_rec1 pt)
qed

section \<open>The interpolator in both arithmetics\<close>

text \<open>
  C6, as the program has it. For all Points \<open>a\<close> and \<open>b\<close> with finite coordinates,
  interpolating at 0 gives \<open>a\<close> and at 1 gives \<open>b\<close>, in exact arithmetic and in single
  precision alike. At one half the result is the midpoint of \<open>a\<close> and \<open>b\<close> in exact
  arithmetic; in single precision it is the midpoint rounded to the nearest binary32
  value, provided that halving the four coordinates is exact (no underflow).
\<close>

theorem interpolator_endpoints_and_midpoint:
  "(lerp 0 a b = a \<and> lerp 1 a b = b \<and> lerp (1 / 2) a b = midpoint_of a b)
   \<and> (finite_point c \<and> finite_point d \<longrightarrow> lerp 0 c d = c \<and> lerp 1 c d = d)
   \<and> (is_binary32 (c1 / 2) \<and> is_binary32 (c2 / 2) \<and> is_binary32 (d1 / 2) \<and> is_binary32 (d2 / 2) \<longrightarrow>
        lerp (Finite (1 / 2)) \<lparr>x = Finite c1, y = Finite c2\<rparr> \<lparr>x = Finite d1, y = Finite d2\<rparr>
          = \<lparr>x = round_binary32 ((c1 + d1) / 2), y = round_binary32 ((c2 + d2) / 2)\<rparr>)"
proof -
  have exact: "lerp 0 a b = a \<and> lerp 1 a b = b \<and> lerp (1 / 2) a b = midpoint_of a b"
    by (simp add: lerp_def midpoint_of_def)
  show ?thesis
    using exact lerp_zero_finite lerp_one_finite lerp_half_binary32 by blast
qed

theorem interpolator_endpoints_and_midpoint_witness:
  "finite_point \<lparr>x = Finite 1, y = Finite 1\<rparr>
   \<and> finite_point \<lparr>x = Finite (8388609 / 8388608), y = Finite 0\<rparr>
   \<and> is_binary32 (1 / 2) \<and> is_binary32 (8388609 / 8388608 / 2) \<and> is_binary32 (0 / 2)
   \<and> lerp 0 \<lparr>x = Finite 1, y = Finite 1\<rparr> \<lparr>x = Finite (8388609 / 8388608), y = Finite 0\<rparr>
        = \<lparr>x = Finite 1, y = Finite 1\<rparr>
   \<and> lerp 1 \<lparr>x = Finite 1, y = Finite 1\<rparr> \<lparr>x = Finite (8388609 / 8388608), y = Finite 0\<rparr>
        = \<lparr>x = Finite (8388609 / 8388608), y = Finite 0\<rparr>
   \<and> lerp (Finite (1 / 2)) \<lparr>x = Finite 1, y = Finite 1\<rparr>
          \<lparr>x = Finite (8388609 / 8388608), y = Finite 0\<rparr>
        = \<lparr>x = Finite 1, y = Finite (1 / 2)\<rparr>"
proof -
  have r1: "is_binary32 1" and r0: "is_binary32 0" and rh: "is_binary32 (1 / 2)"
    by (simp_all add: is_binary32_def round_binary32_0 round_binary32_1 round_binary32_half)
  have rb: "is_binary32 (8388609 / 8388608)"
    by (simp add: is_binary32_def binary32_eval)
  have rbh: "is_binary32 (8388609 / 8388608 / 2)"
    by (simp add: is_binary32_def binary32_eval)
  have mid: "round_binary32 ((1 + 8388609 / 8388608) / 2) = Finite 1"
    by (simp add: binary32_eval)
  have fc: "finite_point \<lparr>x = Finite 1, y = Finite 1\<rparr>"
    using r1 by (simp add: finite_point_def)
  have fd: "finite_point \<lparr>x = Finite (8388609 / 8388608), y = Finite 0\<rparr>"
    using rb r0 by (simp add: finite_point_def)
  show ?thesis
    using interpolator_endpoints_and_midpoint [where c = "\<lparr>x = Finite 1, y = Finite 1\<rparr>"
        and d = "\<lparr>x = Finite (8388609 / 8388608), y = Finite 0\<rparr>"
        and ?c1.0 = 1 and ?c2.0 = 1 and ?d1.0 = "8388609 / 8388608" and ?d2.0 = 0]
      fc fd rh rbh r0 mid
    by (simp add: round_binary32_half)
qed

text \<open>
  Against C6 as it is worded: in single precision, at \<open>t = 1/2\<close> and
  \<open>a = b = (2^-149, 0)\<close>, the smallest positive binary32 value, the halved coordinate
  underflows to 0 and the interpolator returns \<open>(0, 0)\<close>, which is not the midpoint \<open>a\<close>.
\<close>

theorem interpolator_midpoint_underflow:
  "is_binary32 (1 / 2 ^ 149)
   \<and> lerp (Finite (1 / 2)) \<lparr>x = Finite (1 / 2 ^ 149), y = Finite 0\<rparr>
        \<lparr>x = Finite (1 / 2 ^ 149), y = Finite 0\<rparr> = \<lparr>x = Finite 0, y = Finite 0\<rparr>
   \<and> lerp (Finite (1 / 2)) \<lparr>x = Finite (1 / 2 ^ 149), y = Finite 0\<rparr>
        \<lparr>x = Finite (1 / 2 ^ 149), y = Finite 0\<rparr> \<noteq> \<lparr>x = Finite (1 / 2 ^ 149), y = Finite 0\<rparr>
   \<and> midpoint_of \<lparr>x = 1 / 2 ^ 149, y = 0\<rparr> \<lparr>x = 1 / 2 ^ 149, y = 0\<rparr>
        = \<lparr>x = 1 / 2 ^ 149, y = 0\<rparr>"
proof -
  have tiny: "is_binary32 (1 / 2 ^ 149)"
    by (simp add: is_binary32_def binary32_eval)
  have h: "(1::binary32) - Finite (1 / 2) = Finite (1 / 2)"
    by (simp add: binary32_ops round_binary32_half)
  have under: "Finite (1 / 2) * Finite (1 / 2 ^ 149) = Finite 0"
    by (simp add: binary32_ops binary32_eval)
  have z: "Finite (1 / 2) * Finite 0 = Finite 0" "Finite 0 + Finite 0 = Finite 0"
    by (simp_all add: binary32_ops round_binary32_0)
  have l: "lerp (Finite (1 / 2)) \<lparr>x = Finite (1 / 2 ^ 149), y = Finite 0\<rparr>
        \<lparr>x = Finite (1 / 2 ^ 149), y = Finite 0\<rparr> = \<lparr>x = Finite 0, y = Finite 0\<rparr>"
    by (simp only: lerp_def h under z Point.simps)
  have m: "midpoint_of \<lparr>x = 1 / 2 ^ 149, y = 0\<rparr> \<lparr>x = 1 / 2 ^ 149, y = 0\<rparr>
        = \<lparr>x = 1 / 2 ^ 149, y = 0\<rparr>"
    by (simp add: midpoint_of_def)
  show ?thesis
    by (simp only: tiny l m) simp
qed

section \<open>Coincident control points\<close>

text \<open>
  C7, as the program has it. When all control points are one and the same point \<open>p\<close>: in
  exact arithmetic every point of the polyline is \<open>p\<close>, for the quadratic and for the cubic
  routine and for every step count. In any arithmetic the first point is \<open>p\<close>. In single
  precision, for a finite \<open>p\<close> and a step count from 1 to \<open>2^31 - 1\<close>, the last point is
  \<open>p\<close> as well; nothing is said of the points in between.
\<close>

theorem degenerate_control_points:
  fixes p :: "real Point" and r :: "binary32 Point"
  shows "(evaluate_quadratic to_float p p p step_count = replicate (Suc (nat step_count)) p
        \<and> set (evaluate_quadratic to_float p p p step_count) = {p}
        \<and> evaluate_cubic to_float p p p p step_count = replicate (Suc (nat step_count)) p
        \<and> set (evaluate_cubic to_float p p p p step_count) = {p})
       \<and> (hd (evaluate_quadratic any_float q q q step_count) = q
        \<and> hd (evaluate_cubic any_float q q q q step_count) = q)
       \<and> (finite_point r \<and> 0 < step_count \<and> step_count < 2 ^ 31 \<longrightarrow>
            last (evaluate_quadratic int_to_binary32 r r r step_count) = r
          \<and> last (evaluate_cubic int_to_binary32 r r r r step_count) = r)"
proof -
  have quad: "spec_quadratic_point to_float step_count p p p = (\<lambda>i. p)"
    by (rule ext) (simp add: spec_quadratic_point_def Let_def lerp_same)
  have cub: "spec_cubic_point to_float step_count p p p p = (\<lambda>i. p)"
    by (rule ext) (simp add: spec_cubic_point_def Let_def lerp_same)
  have len: "length [1..step_count] = nat step_count"
    by simp
  have q: "evaluate_quadratic to_float p p p step_count = replicate (Suc (nat step_count)) p"
    by (simp add: evaluate_quadratic_points quad map_replicate_const len)
  have c: "evaluate_cubic to_float p p p p step_count = replicate (Suc (nat step_count)) p"
    by (simp add: evaluate_cubic_points cub map_replicate_const len)
  have exact: "evaluate_quadratic to_float p p p step_count = replicate (Suc (nat step_count)) p
        \<and> set (evaluate_quadratic to_float p p p step_count) = {p}
        \<and> evaluate_cubic to_float p p p p step_count = replicate (Suc (nat step_count)) p
        \<and> set (evaluate_cubic to_float p p p p step_count) = {p}"
    by (simp only: q c) auto
  have first: "hd (evaluate_quadratic any_float q q q step_count) = q
        \<and> hd (evaluate_cubic any_float q q q q step_count) = q"
    by (simp add: evaluate_quadratic_points evaluate_cubic_points)
  have final: "last (evaluate_quadratic int_to_binary32 r r r step_count) = r
          \<and> last (evaluate_cubic int_to_binary32 r r r r step_count) = r"
    if "finite_point r" "0 < step_count" "step_count < 2 ^ 31"
    using last_point_binary32 [OF that(2,3) that(1) that(1) that(1) that(1)] by simp
  show ?thesis
    using exact first final by blast
qed

theorem degenerate_control_points_witness:
  "finite_point \<lparr>x = Finite (13421773 / 134217728), y = Finite (13421773 / 134217728)\<rparr>
   \<and> (0::int) < 3 \<and> (3::int) < 2 ^ 31
   \<and> last (evaluate_quadratic int_to_binary32
        \<lparr>x = Finite (13421773 / 134217728), y = Finite (13421773 / 134217728)\<rparr>
        \<lparr>x = Finite (13421773 / 134217728), y = Finite (13421773 / 134217728)\<rparr>
        \<lparr>x = Finite (13421773 / 134217728), y = Finite (13421773 / 134217728)\<rparr> 3)
      = \<lparr>x = Finite (13421773 / 134217728), y = Finite (13421773 / 134217728)\<rparr>
   \<and> last (evaluate_cubic int_to_binary32
        \<lparr>x = Finite (13421773 / 134217728), y = Finite (13421773 / 134217728)\<rparr>
        \<lparr>x = Finite (13421773 / 134217728), y = Finite (13421773 / 134217728)\<rparr>
        \<lparr>x = Finite (13421773 / 134217728), y = Finite (13421773 / 134217728)\<rparr>
        \<lparr>x = Finite (13421773 / 134217728), y = Finite (13421773 / 134217728)\<rparr> 3)
      = \<lparr>x = Finite (13421773 / 134217728), y = Finite (13421773 / 134217728)\<rparr>"
proof -
  have rp: "is_binary32 (13421773 / 134217728)"
    by (simp add: is_binary32_def binary32_eval)
  have fp: "finite_point \<lparr>x = Finite (13421773 / 134217728), y = Finite (13421773 / 134217728)\<rparr>"
    using rp by (simp add: finite_point_def)
  show ?thesis
    using fp degenerate_control_points [where step_count = 3
        and r = "\<lparr>x = Finite (13421773 / 134217728), y = Finite (13421773 / 134217728)\<rparr>"
        and to_float = real_of_int and p = "\<lparr>x = 0, y = 0\<rparr>"
        and any_float = real_of_int and q = "\<lparr>x = 0, y = 0\<rparr>"]
    by simp
qed

text \<open>
  Against C7 as it is worded: in single precision, with all control points
  \<open>p = (0.1f, 0.1f)\<close>, that is \<open>13421773 / 2^27\<close>, and three steps, point 1 of the quadratic
  and of the cubic polyline is \<open>13421771 / 2^27\<close> in both coordinates, two units in the last
  place below \<open>p\<close>.
\<close>

theorem degenerate_control_points_rounding:
  "finite_point \<lparr>x = Finite (13421773 / 134217728), y = Finite (13421773 / 134217728)\<rparr>
   \<and> evaluate_quadratic int_to_binary32
        \<lparr>x = Finite (13421773 / 134217728), y = Finite (13421773 / 134217728)\<rparr>
        \<lparr>x = Finite (13421773 / 134217728), y = Finite (13421773 / 134217728)\<rparr>
        \<lparr>x = Finite (13421773 / 134217728), y = Finite (13421773 / 134217728)\<rparr> 3 ! 1
      = \<lparr>x = Finite (13421771 / 134217728), y = Finite (13421771 / 134217728)\<rparr>
   \<and> evaluate_cubic int_to_binary32
        \<lparr>x = Finite (13421773 / 134217728), y = Finite (13421773 / 134217728)\<rparr>
        \<lparr>x = Finite (13421773 / 134217728), y = Finite (13421773 / 134217728)\<rparr>
        \<lparr>x = Finite (13421773 / 134217728), y = Finite (13421773 / 134217728)\<rparr>
        \<lparr>x = Finite (13421773 / 134217728), y = Finite (13421773 / 134217728)\<rparr> 3 ! 1
      = \<lparr>x = Finite (13421771 / 134217728), y = Finite (13421771 / 134217728)\<rparr>
   \<and> \<lparr>x = Finite (13421771 / 134217728), y = Finite (13421771 / 134217728)\<rparr>
      \<noteq> \<lparr>x = Finite (13421773 / 134217728), y = Finite (13421773 / 134217728)\<rparr>"
proof -
  let ?P = "\<lparr>x = Finite (13421773 / 134217728), y = Finite (13421773 / 134217728)\<rparr>"
  let ?A = "\<lparr>x = Finite (3355443 / 33554432), y = Finite (3355443 / 33554432)\<rparr>"
  let ?C = "\<lparr>x = Finite (13421771 / 134217728), y = Finite (13421771 / 134217728)\<rparr>"
  let ?t = "Finite (11184811 / 33554432)"
  have rp: "is_binary32 (13421773 / 134217728)"
    by (simp add: is_binary32_def binary32_eval)
  have fp: "finite_point ?P"
    using rp by (simp add: finite_point_def)
  have t: "int_to_binary32 1 / int_to_binary32 3 = ?t"
    by (simp add: int_to_binary32_def binary32_ops binary32_eval)
  have u: "1 - ?t = Finite (5592405 / 8388608)"
    by (simp add: binary32_ops binary32_eval)
  have m1: "Finite (5592405 / 8388608) * Finite (13421773 / 134217728) = Finite (1118481 / 16777216)"
    by (simp add: binary32_ops binary32_eval)
  have m2: "?t * Finite (13421773 / 134217728) = Finite (8947849 / 268435456)"
    by (simp add: binary32_ops binary32_eval)
  have s1: "Finite (1118481 / 16777216) + Finite (8947849 / 268435456) = Finite (3355443 / 33554432)"
    by (simp add: binary32_ops binary32_eval)
  have l1: "lerp ?t ?P ?P = ?A"
    by (simp only: lerp_def u m1 m2 s1 Point.simps)
  have m3: "Finite (5592405 / 8388608) * Finite (3355443 / 33554432) = Finite (8947847 / 134217728)"
    by (simp add: binary32_ops binary32_eval)
  have m4: "?t * Finite (3355443 / 33554432) = Finite (1118481 / 33554432)"
    by (simp add: binary32_ops binary32_eval)
  have s2: "Finite (8947847 / 134217728) + Finite (1118481 / 33554432) = Finite (13421771 / 134217728)"
    by (simp add: binary32_ops binary32_eval)
  have l2: "lerp ?t ?A ?A = ?C"
    by (simp only: lerp_def u m3 m4 s2 Point.simps)
  have m5: "Finite (5592405 / 8388608) * Finite (13421771 / 134217728) = Finite (8947847 / 134217728)"
    by (simp add: binary32_ops binary32_eval)
  have m6: "?t * Finite (13421771 / 134217728) = Finite (1118481 / 33554432)"
    by (simp add: binary32_ops binary32_eval)
  have l3: "lerp ?t ?C ?C = ?C"
    by (simp only: lerp_def u m5 m6 s2 Point.simps)
  have quad: "spec_quadratic_point int_to_binary32 3 ?P ?P ?P 1 = ?C"
    unfolding spec_quadratic_point_def Let_def by (simp only: t l1 l2)
  have cub: "spec_cubic_point int_to_binary32 3 ?P ?P ?P ?P 1 = ?C"
    unfolding spec_cubic_point_def Let_def by (simp only: t l1 l2 l3)
  have idx: "(p # map f [1..3]) ! 1 = f 1" for p :: "binary32 Point" and f
    by (simp add: upto_rec1)
  have eq: "evaluate_quadratic int_to_binary32 ?P ?P ?P 3 ! 1 = ?C"
    by (simp only: evaluate_quadratic_points idx quad)
  have ec: "evaluate_cubic int_to_binary32 ?P ?P ?P ?P 3 ! 1 = ?C"
    by (simp only: evaluate_cubic_points idx cub)
  have ne: "?C \<noteq> ?P"
    by simp
  show ?thesis
    using fp eq ec ne by blast
qed

section \<open>Step counts that are not positive\<close>




section \<open>Agreement with the Bernstein form\<close>

text \<open>
  C10. In exact arithmetic the nested interpolation is the Bernstein polynomial form of
  the curve: for every \<open>t\<close> and all control points,
  \<open>lerp t (lerp t p0 p1) (lerp t p1 p2) = (1 - t)\<^sup>2 p0 + 2 t (1 - t) p1 + t\<^sup>2 p2\<close>, the
  three-layer interpolation is the form of degree 3, and so every point after \<open>p0\<close> of
  either polyline is the Bernstein form at \<open>t = i / step_count\<close>.
\<close>

theorem de_casteljau_is_bernstein:
  "lerp t (lerp t p0 p1) (lerp t p1 p2) = bernstein_quadratic t p0 p1 p2
   \<and> lerp t (lerp t (lerp t q0 q1) (lerp t q1 q2)) (lerp t (lerp t q1 q2) (lerp t q2 q3))
       = bernstein_cubic t q0 q1 q2 q3
   \<and> evaluate_quadratic real_of_int p0 p1 p2 step_count =
       p0 # map (\<lambda>i. bernstein_quadratic (real_of_int i / real_of_int step_count) p0 p1 p2)
              [1..step_count]
   \<and> evaluate_cubic real_of_int q0 q1 q2 q3 step_count =
       q0 # map (\<lambda>i. bernstein_cubic (real_of_int i / real_of_int step_count) q0 q1 q2 q3)
              [1..step_count]"
proof -
  have quad: "spec_quadratic_point real_of_int step_count p0 p1 p2 =
      (\<lambda>i. bernstein_quadratic (real_of_int i / real_of_int step_count) p0 p1 p2)"
    by (rule ext) (simp only: spec_quadratic_point_def Let_def lerp_lerp_bernstein)
  have cub: "spec_cubic_point real_of_int step_count q0 q1 q2 q3 =
      (\<lambda>i. bernstein_cubic (real_of_int i / real_of_int step_count) q0 q1 q2 q3)"
    by (rule ext) (simp only: spec_cubic_point_def Let_def lerp_lerp_lerp_bernstein)
  have eq: "evaluate_quadratic real_of_int p0 p1 p2 step_count =
       p0 # map (\<lambda>i. bernstein_quadratic (real_of_int i / real_of_int step_count) p0 p1 p2)
              [1..step_count]"
    by (simp only: evaluate_quadratic_points quad)
  have ec: "evaluate_cubic real_of_int q0 q1 q2 q3 step_count =
       q0 # map (\<lambda>i. bernstein_cubic (real_of_int i / real_of_int step_count) q0 q1 q2 q3)
              [1..step_count]"
    by (simp only: evaluate_cubic_points cub)
  show ?thesis
    by (intro conjI lerp_lerp_bernstein lerp_lerp_lerp_bernstein eq ec)
qed

end
